theory Spec2Isabelle
  imports Complex_Main "HOL-Library.Sublist"
begin

section \<open>Breadth-first tree-of-thoughts search (src/tot/methods/bfs.py)\<close>

text \<open>
  The module drives an external language model through generate / evaluate / select
  rounds. Everything outside the module is a parameter of the model:
  \<^item> the task object: its prompt wrappers and unwrap functions are pure functions, its
    \<open>steps\<close> and \<open>stops\<close> are data, and its mutable \<open>value_cache\<close> dictionary lives in
    the state;
  \<^item> the backend \<open>gpt\<close>: a state transformer on a hidden backend state. It answers a
    prompt with a list of completions or fails (an exception of the client, which the
    module never catches). Every invocation is recorded in \<open>llm_calls\<close>;
  \<^item> numpy: what its weighted sampler will answer, call after call.
  Scores are Python numbers. The module itself only stores, compares and forwards
  them; they are modelled as reals (no NaN), and no arithmetic is done on them here.
\<close>

subsection \<open>Errors, state and collaborators\<close>

datatype error =
    ValueError string
  | NameError string
  | IndexError
  | NumpyError
  | BackendError

type_synonym llm_call = "string \<times> int \<times> string option"

record 'w state =
  backend :: 'w
  llm_calls :: "llm_call list"
  value_cache :: "string \<rightharpoonup> real"
  np_random :: "nat \<Rightarrow> nat list \<Rightarrow> int \<Rightarrow> real list \<Rightarrow> error + nat list"

type_synonym ('w, 'a) result = "(error + 'a) \<times> 'w state"

text \<open>
  The callable bound to the global \<open>gpt\<close>: prompt, \<open>n\<close>, \<open>stop\<close> and the backend state
  in; the completions (\<open>None\<close> when the client raises) and the next backend state out.
\<close>

type_synonym 'w llm = "string \<Rightarrow> int \<Rightarrow> string option \<Rightarrow> 'w \<Rightarrow> string list option \<times> 'w"

record 'x task =
  get_input :: "int \<Rightarrow> 'x"
  steps :: int
  stops :: "string option list"
  standard_prompt_wrap :: "'x \<Rightarrow> string \<Rightarrow> string"
  cot_prompt_wrap :: "'x \<Rightarrow> string \<Rightarrow> string"
  propose_prompt_wrap :: "'x \<Rightarrow> string \<Rightarrow> string"
  value_prompt_wrap :: "'x \<Rightarrow> string \<Rightarrow> string"
  vote_prompt_wrap :: "'x \<Rightarrow> string list \<Rightarrow> string"
  value_outputs_unwrap :: "'x \<Rightarrow> string \<Rightarrow> string list \<Rightarrow> real"
  vote_outputs_unwrap :: "string list \<Rightarrow> nat \<Rightarrow> real list"

record args =
  args_backend :: string
  temperature :: real
  method_generate :: string
  method_evaluate :: string
  method_select :: string
  n_generate_sample :: int
  n_evaluate_sample :: int
  n_select_sample :: int
  prompt_sample :: string

text \<open>One call \<open>gpt(prompt, n=n, stop=stop)\<close>: the backend runs and the call is logged.\<close>

definition call_gpt :: "'w llm \<Rightarrow> string \<Rightarrow> int \<Rightarrow> string option \<Rightarrow> 'w state
    \<Rightarrow> ('w, string list) result" where
  "call_gpt gpt prompt n stop s =
     (case gpt prompt n stop (backend s) of
        (r, w') \<Rightarrow>
          ((case r of None \<Rightarrow> Inl BackendError | Some outputs \<Rightarrow> Inr outputs),
           s\<lparr>backend := w', llm_calls := llm_calls s @ [(prompt, n, stop)]\<rparr>))"

subsection \<open>Evaluation: \<open>get_value\<close>, \<open>get_values\<close>, \<open>get_votes\<close>\<close>

definition get_value :: "'x task \<Rightarrow> 'w llm \<Rightarrow> 'x \<Rightarrow> string \<Rightarrow> int \<Rightarrow> bool \<Rightarrow> 'w state
    \<Rightarrow> ('w, real) result" where
  "get_value task gpt x y n_evaluate cache_value s =
     (let value_prompt = value_prompt_wrap task x y in
      case (if cache_value then value_cache s value_prompt else None) of
        Some v \<Rightarrow> (Inr v, s)
      | None \<Rightarrow>
          (case call_gpt gpt value_prompt n_evaluate None s of
             (Inl e, s1) \<Rightarrow> (Inl e, s1)
           | (Inr value_outputs, s1) \<Rightarrow>
               (let v = value_outputs_unwrap task x y value_outputs in
                (Inr v,
                 if cache_value
                 then s1\<lparr>value_cache := (value_cache s1)(value_prompt \<mapsto> v)\<rparr>
                 else s1))))"

text \<open>
  The loop of \<open>get_values\<close> over the candidates still to be scored, with the list
  \<open>values\<close> built so far and the dictionary \<open>local_value_cache\<close>.
\<close>

fun get_values_loop :: "'x task \<Rightarrow> 'w llm \<Rightarrow> 'x \<Rightarrow> int \<Rightarrow> bool \<Rightarrow> string list
    \<Rightarrow> real list \<Rightarrow> (string \<rightharpoonup> real) \<Rightarrow> 'w state \<Rightarrow> ('w, real list) result" where
  "get_values_loop task gpt x n_evaluate cache_value [] vals local_value_cache s =
     (Inr vals, s)"
| "get_values_loop task gpt x n_evaluate cache_value (y # ys) vals local_value_cache s =
     (case local_value_cache y of
        Some _ \<Rightarrow>
          get_values_loop task gpt x n_evaluate cache_value ys (vals @ [0])
            local_value_cache s
      | None \<Rightarrow>
          (case get_value task gpt x y n_evaluate cache_value s of
             (Inl e, s1) \<Rightarrow> (Inl e, s1)
           | (Inr v, s1) \<Rightarrow>
               get_values_loop task gpt x n_evaluate cache_value ys (vals @ [v])
                 (local_value_cache(y \<mapsto> v)) s1))"

definition get_values :: "'x task \<Rightarrow> 'w llm \<Rightarrow> 'x \<Rightarrow> string list \<Rightarrow> int \<Rightarrow> bool
    \<Rightarrow> 'w state \<Rightarrow> ('w, real list) result" where
  "get_values task gpt x ys n_evaluate cache_value s =
     get_values_loop task gpt x n_evaluate cache_value ys [] Map.empty s"

definition get_votes :: "'x task \<Rightarrow> 'w llm \<Rightarrow> 'x \<Rightarrow> string list \<Rightarrow> int \<Rightarrow> 'w state
    \<Rightarrow> ('w, real list) result" where
  "get_votes task gpt x ys n_evaluate s =
     (let vote_prompt = vote_prompt_wrap task x ys in
      case call_gpt gpt vote_prompt n_evaluate None s of
        (Inl e, s1) \<Rightarrow> (Inl e, s1)
      | (Inr vote_outputs, s1) \<Rightarrow>
          (Inr (vote_outputs_unwrap task vote_outputs (length ys)), s1))"

subsection \<open>Generation: \<open>get_proposals\<close>, \<open>get_samples\<close>\<close>

text \<open>
  Python's \<open>str.split('\n')\<close>: the pieces between the separators, empty pieces kept, so
  a string with \<open>m\<close> newlines gives \<open>m + 1\<close> pieces and the empty string gives \<open>['']\<close>.
\<close>

fun split_newline :: "string \<Rightarrow> string list" where
  "split_newline [] = [[]]"
| "split_newline (c # cs) =
     (if c = CHR 0x0A then [] # split_newline cs
      else (case split_newline cs of
              [] \<Rightarrow> [[c]]
            | p # ps \<Rightarrow> (c # p) # ps))"

definition get_proposals :: "'x task \<Rightarrow> 'w llm \<Rightarrow> 'x \<Rightarrow> string \<Rightarrow> 'w state
    \<Rightarrow> ('w, string list) result" where
  "get_proposals task gpt x y s =
     (let propose_prompt = propose_prompt_wrap task x y in
      case call_gpt gpt propose_prompt 1 None s of
        (Inl e, s1) \<Rightarrow> (Inl e, s1)
      | (Inr outputs, s1) \<Rightarrow>
          (case outputs of
             [] \<Rightarrow> (Inl IndexError, s1)
           | out # _ \<Rightarrow>
               (let proposals = split_newline out in
                (Inr (map (\<lambda>p. y @ p @ [CHR 0x0A]) proposals), s1))))"

definition get_samples :: "'x task \<Rightarrow> 'w llm \<Rightarrow> 'x \<Rightarrow> string \<Rightarrow> int \<Rightarrow> string
    \<Rightarrow> string option \<Rightarrow> 'w state \<Rightarrow> ('w, string list) result" where
  "get_samples task gpt x y n_generate prompt_mode stop s =
     (case (if prompt_mode = ''standard'' then Inr (standard_prompt_wrap task x y)
            else if prompt_mode = ''cot'' then Inr (cot_prompt_wrap task x y)
            else Inl (ValueError (''prompt_sample '' @ prompt_mode @ '' not recognized''))) of
        Inl e \<Rightarrow> (Inl e, s)
      | Inr prompt \<Rightarrow>
          (case call_gpt gpt prompt n_generate stop s of
             (Inl e, s1) \<Rightarrow> (Inl e, s1)
           | (Inr samples, s1) \<Rightarrow> (Inr (map (\<lambda>c. y @ c) samples), s1)))"

subsection \<open>Library functions used by \<open>solve\<close>\<close>

text \<open>
  A list comprehension \<open>[f(y) for y in ys]\<close> whose body runs in the state: left to
  right, stopping at the first exception.
\<close>

fun comprehension :: "('a \<Rightarrow> 'w state \<Rightarrow> ('w, 'b) result) \<Rightarrow> 'a list \<Rightarrow> 'w state
    \<Rightarrow> ('w, 'b list) result" where
  "comprehension f [] s = (Inr [], s)"
| "comprehension f (y # ys) s =
     (case f y s of
        (Inl e, s1) \<Rightarrow> (Inl e, s1)
      | (Inr r, s1) \<Rightarrow>
          (case comprehension f ys s1 of
             (Inl e, s2) \<Rightarrow> (Inl e, s2)
           | (Inr rs, s2) \<Rightarrow> (Inr (r # rs), s2)))"

text \<open>
  \<open>sorted(xs, key=key, reverse=True)\<close>: CPython reverses the list, sorts it stably in
  ascending key order and reverses the result, so equal keys keep their original order.
\<close>

definition sorted_reverse :: "('a \<Rightarrow> real) \<Rightarrow> 'a list \<Rightarrow> 'a list" where
  "sorted_reverse key xs = rev (sort_key key (rev xs))"

text \<open>The slice \<open>xs[:n]\<close>; a negative \<open>n\<close> counts from the end.\<close>

definition slice_to :: "int \<Rightarrow> 'a list \<Rightarrow> 'a list" where
  "slice_to n xs = (if 0 \<le> n then take (nat n) xs else take (length xs - nat (- n)) xs)"

text \<open>
  Lines 127-128, \<open>ps = np.array(values) / sum(values)\<close> followed by
  \<open>np.random.choice(ids, size=sz, p=ps).tolist()\<close>, are float64 arithmetic and a draw
  from numpy's global generator. Neither is computed here. The state holds, for each
  future execution of the two lines in turn, what they yield on the ids, the size and
  the scores they are given: the drawn ids, or the exception raised inside numpy
  (weights that are no probability vector, numbers that cannot be cast, a negative
  size). Nothing is assumed of these answers, so they may depend on rounding, on how a
  number is represented and on the generator's state. A call that raises draws nothing.
\<close>

definition weighted_choice :: "nat list \<Rightarrow> int \<Rightarrow> real list \<Rightarrow> 'w state
    \<Rightarrow> ('w, nat list) result" where
  "weighted_choice ids sz vs s =
     (case np_random s 0 ids sz vs of
        Inl e \<Rightarrow> (Inl e, s)
      | Inr select_ids \<Rightarrow> (Inr select_ids, s\<lparr>np_random := (\<lambda>k. np_random s (Suc k))\<rparr>))"

subsection \<open>The search loop: \<open>solve\<close>\<close>

text \<open>
  The record appended to \<open>infos\<close> at the end of a step, and the local variables of
  \<open>solve\<close> that are assigned only inside a branch of the loop body: each is unbound
  (\<open>None\<close>) until a branch assigns it, and reading it unbound raises.
\<close>

record 'x info =
  info_step :: nat
  info_x :: 'x
  info_ys :: "string list"
  info_new_ys :: "string list"
  info_values :: "real list"
  info_select_new_ys :: "string list"

record locals =
  new_ys_var :: "string list option"
  values_var :: "real list option"
  select_ids_var :: "nat list option"

text \<open>
  Lines 105-112. With neither strategy, \<open>new_ys\<close> keeps its binding: unbound in the
  first iteration, the flat list of the previous one later, which \<open>chain(*new_ys)\<close>
  takes apart into its characters.
\<close>

definition generation :: "args \<Rightarrow> 'x task \<Rightarrow> 'w llm \<Rightarrow> 'x \<Rightarrow> nat \<Rightarrow> string list
    \<Rightarrow> string list option \<Rightarrow> 'w state \<Rightarrow> ('w, string list) result" where
  "generation a task gpt x step ys new_ys0 s =
     (if method_generate a = ''sample'' then
        (case comprehension
                (\<lambda>y s'. if step < length (stops task)
                         then get_samples task gpt x y (n_generate_sample a)
                                (prompt_sample a) (stops task ! step) s'
                         else (Inl IndexError, s')) ys s of
           (Inl e, s1) \<Rightarrow> (Inl e, s1)
         | (Inr new_ys, s1) \<Rightarrow> (Inr (concat new_ys), s1))
      else if method_generate a = ''propose'' then
        (case comprehension (\<lambda>y s'. get_proposals task gpt x y s') ys s of
           (Inl e, s1) \<Rightarrow> (Inl e, s1)
         | (Inr new_ys, s1) \<Rightarrow> (Inr (concat new_ys), s1))
      else
        (case new_ys0 of
           None \<Rightarrow> (Inl (NameError ''new_ys''), s)
         | Some new_ys \<Rightarrow> (Inr (map (\<lambda>c. [c]) (concat new_ys)), s)))"

text \<open>Lines 117-122; the result is the binding of \<open>values\<close> after them.\<close>

definition evaluation :: "args \<Rightarrow> 'x task \<Rightarrow> 'w llm \<Rightarrow> 'x \<Rightarrow> string list
    \<Rightarrow> real list option \<Rightarrow> 'w state \<Rightarrow> ('w, real list option) result" where
  "evaluation a task gpt x new_ys values0 s =
     (if method_evaluate a = ''vote'' then
        (case get_votes task gpt x new_ys (n_evaluate_sample a) s of
           (Inl e, s1) \<Rightarrow> (Inl e, s1)
         | (Inr vals, s1) \<Rightarrow> (Inr (Some vals), s1))
      else if method_evaluate a = ''value'' then
        (case get_values task gpt x new_ys (n_evaluate_sample a) True s of
           (Inl e, s1) \<Rightarrow> (Inl e, s1)
         | (Inr vals, s1) \<Rightarrow> (Inr (Some vals), s1))
      else (Inr values0, s))"

text \<open>
  Lines 125-131, giving \<open>select_ids\<close>. The sample branch reads \<open>values\<close> and leaves
  the rest to numpy. The key function of \<open>sorted\<close> reads \<open>values[x]\<close> for every id.
\<close>

definition selection :: "args \<Rightarrow> string list \<Rightarrow> real list option \<Rightarrow> nat list option
    \<Rightarrow> 'w state \<Rightarrow> ('w, nat list) result" where
  "selection a new_ys vals select_ids0 s =
     (let ids = [0..<length new_ys] in
      if method_select a = ''sample'' then
        (case vals of
           None \<Rightarrow> (Inl (NameError ''values''), s)
         | Some vs \<Rightarrow> weighted_choice ids (n_select_sample a) vs s)
      else if method_select a = ''greedy'' then
        (case vals of
           None \<Rightarrow> if ids = [] then (Inr [], s) else (Inl (NameError ''values''), s)
         | Some vs \<Rightarrow>
             if \<forall>i \<in> set ids. i < length vs
             then (Inr (slice_to (n_select_sample a) (sorted_reverse (\<lambda>i. vs ! i) ids)), s)
             else (Inl IndexError, s))
      else
        (case select_ids0 of
           None \<Rightarrow> (Inl (NameError ''select_ids''), s)
         | Some select_ids \<Rightarrow> (Inr select_ids, s)))"

text \<open>Line 133: \<open>[new_ys[select_id] for select_id in select_ids]\<close>.\<close>

definition select_candidates :: "string list \<Rightarrow> nat list \<Rightarrow> error + string list" where
  "select_candidates new_ys select_ids =
     (if \<forall>i \<in> set select_ids. i < length new_ys
      then Inr (map (\<lambda>i. new_ys ! i) select_ids) else Inl IndexError)"

text \<open>
  Lines 136-140. What is printed is not modelled, only what the logging block can
  raise: unpacking \<open>zip(*sorted(zip(new_ys, values)))\<close> into two names fails when there
  is no pair.
\<close>

definition log_and_record :: "bool \<Rightarrow> nat \<Rightarrow> 'x \<Rightarrow> string list \<Rightarrow> string list
    \<Rightarrow> real list option \<Rightarrow> string list \<Rightarrow> error + 'x info" where
  "log_and_record to_print step x ys new_ys vals select_new_ys =
     (case vals of
        None \<Rightarrow> Inl (NameError ''values'')
      | Some vs \<Rightarrow>
          if to_print \<and> zip new_ys vs = []
          then Inl (ValueError ''not enough values to unpack (expected 2, got 0)'')
          else Inr \<lparr>info_step = step, info_x = x, info_ys = ys, info_new_ys = new_ys,
                    info_values = vs, info_select_new_ys = select_new_ys\<rparr>)"

definition solve_step :: "args \<Rightarrow> 'x task \<Rightarrow> 'w llm \<Rightarrow> 'x \<Rightarrow> bool \<Rightarrow> nat \<Rightarrow> string list
    \<Rightarrow> locals \<Rightarrow> 'w state \<Rightarrow> ('w, string list \<times> 'x info \<times> locals) result" where
  "solve_step a task gpt x to_print step ys loc s =
     (case generation a task gpt x step ys (new_ys_var loc) s of
        (Inl e, s1) \<Rightarrow> (Inl e, s1)
      | (Inr new_ys, s1) \<Rightarrow>
     (case evaluation a task gpt x new_ys (values_var loc) s1 of
        (Inl e, s2) \<Rightarrow> (Inl e, s2)
      | (Inr vals, s2) \<Rightarrow>
     (case selection a new_ys vals (select_ids_var loc) s2 of
        (Inl e, s3) \<Rightarrow> (Inl e, s3)
      | (Inr select_ids, s3) \<Rightarrow>
     (case select_candidates new_ys select_ids of
        Inl e \<Rightarrow> (Inl e, s3)
      | Inr select_new_ys \<Rightarrow>
     (case log_and_record to_print step x ys new_ys vals select_new_ys of
        Inl e \<Rightarrow> (Inl e, s3)
      | Inr info \<Rightarrow>
          (Inr (select_new_ys, info,
                \<lparr>new_ys_var = Some new_ys, values_var = vals,
                 select_ids_var = Some select_ids\<rparr>), s3))))))"

text \<open>The \<open>for step in range(task.steps)\<close> loop over the steps still to run.\<close>

fun solve_loop :: "args \<Rightarrow> 'x task \<Rightarrow> 'w llm \<Rightarrow> 'x \<Rightarrow> bool \<Rightarrow> nat list \<Rightarrow> string list
    \<Rightarrow> 'x info list \<Rightarrow> locals \<Rightarrow> 'w state \<Rightarrow> ('w, string list \<times> 'x info list) result" where
  "solve_loop a task gpt x to_print [] ys infos loc s = (Inr (ys, infos), s)"
| "solve_loop a task gpt x to_print (step # rest) ys infos loc s =
     (case solve_step a task gpt x to_print step ys loc s of
        (Inl e, s1) \<Rightarrow> (Inl e, s1)
      | (Inr (select_new_ys, info, loc1), s1) \<Rightarrow>
          solve_loop a task gpt x to_print rest select_new_ys (infos @ [info]) loc1 s1)"

text \<open>
  \<open>solve\<close> and \<open>naive_solve\<close>. The imported client takes the model name and the
  temperature as keywords; \<open>partial\<close> fixes them to those of \<open>args\<close> (a later rebinding
  overrides an earlier one). The second component of the result is the returned
  dictionary: \<open>{'steps': infos}\<close> or \<open>{}\<close>.
\<close>

definition solve :: "args \<Rightarrow> 'x task \<Rightarrow> (string \<Rightarrow> real \<Rightarrow> 'w llm) \<Rightarrow> int \<Rightarrow> bool \<Rightarrow> 'w state
    \<Rightarrow> ('w, string list \<times> (string \<rightharpoonup> 'x info list)) result" where
  "solve a task gpt_client idx to_print s =
     (let gpt = gpt_client (args_backend a) (temperature a);
          x = get_input task idx
      in case solve_loop a task gpt x to_print [0..<nat (steps task)] [''''] []
                \<lparr>new_ys_var = None, values_var = None, select_ids_var = None\<rparr> s of
           (Inl e, s1) \<Rightarrow> (Inl e, s1)
         | (Inr (ys, infos), s1) \<Rightarrow> (Inr (ys, [''steps'' \<mapsto> infos]), s1))"

definition naive_solve :: "args \<Rightarrow> 'x task \<Rightarrow> (string \<Rightarrow> real \<Rightarrow> 'w llm) \<Rightarrow> int \<Rightarrow> bool
    \<Rightarrow> 'w state \<Rightarrow> ('w, string list \<times> (string \<rightharpoonup> 'x info list)) result" where
  "naive_solve a task gpt_client idx to_print s =
     (let gpt = gpt_client (args_backend a) (temperature a);
          x = get_input task idx
      in case get_samples task gpt x '''' (n_generate_sample a) (prompt_sample a) None s of
           (Inl e, s1) \<Rightarrow> (Inl e, s1)
         | (Inr ys, s1) \<Rightarrow> (Inr (ys, Map.empty), s1))"

subsection \<open>A concrete task, client and state\<close>

text \<open>
  A small deterministic configuration on which the definitions can be run: the client
  answers every prompt with the completions \<open>a\<close>, \<open>aa\<close>, ... (\<open>n\<close> of them) and counts
  its calls, the value of a candidate is its length, and the sampler always draws the
  first id.
\<close>

definition demo_task :: "string task" where
  "demo_task =
     \<lparr>get_input = (\<lambda>idx. ''in''), steps = 2, stops = [None, None],
      standard_prompt_wrap = (\<lambda>x y. ''std:'' @ x @ '':'' @ y),
      cot_prompt_wrap = (\<lambda>x y. ''cot:'' @ x @ '':'' @ y),
      propose_prompt_wrap = (\<lambda>x y. ''propose:'' @ x @ '':'' @ y),
      value_prompt_wrap = (\<lambda>x y. ''value:'' @ x @ '':'' @ y),
      vote_prompt_wrap = (\<lambda>x ys. ''vote:'' @ x @ '':'' @ concat ys),
      value_outputs_unwrap = (\<lambda>x y outs. real (length y)),
      vote_outputs_unwrap = (\<lambda>outs n. replicate n 1)\<rparr>"

definition demo_client :: "string \<Rightarrow> real \<Rightarrow> nat llm" where
  "demo_client model temp prompt n stop w =
     (Some (map (\<lambda>i. replicate (Suc i) (CHR ''a'')) [0..<nat n]), Suc w)"

definition fixed_client :: "string list \<Rightarrow> string \<Rightarrow> real \<Rightarrow> nat llm" where
  "fixed_client outputs model temp prompt n stop w = (Some outputs, Suc w)"

definition demo_state :: "nat state" where
  "demo_state =
     \<lparr>backend = 0, llm_calls = [], value_cache = Map.empty,
      np_random = (\<lambda>k ids sz vs. if ids = [] \<or> sz < 0 then Inl NumpyError
                                 else Inr (replicate (nat sz) (hd ids)))\<rparr>"

definition demo_args :: args where
  "demo_args =
     \<lparr>args_backend = ''gpt-4'', temperature = 7 / 10, method_generate = ''sample'',
      method_evaluate = ''value'', method_select = ''greedy'', n_generate_sample = 3,
      n_evaluate_sample = 1, n_select_sample = 1, prompt_sample = ''standard''\<rparr>"

subsection \<open>Vocabulary of the specification\<close>

text \<open>The non-empty lines of a completion, as the specification counts them.\<close>

definition nonempty_lines :: "string \<Rightarrow> string list" where
  "nonempty_lines out = filter (\<lambda>l. l \<noteq> []) (split_newline out)"

text \<open>
  The candidates of \<open>ys\<close> in order of first appearance, leaving out those already
  \<open>seen\<close>; and the score list that gives 0 to every repeated (or already seen)
  candidate and the next score of \<open>scores\<close> to every other one.
\<close>

fun unseen :: "'a set \<Rightarrow> 'a list \<Rightarrow> 'a list" where
  "unseen seen [] = []"
| "unseen seen (y # ys) =
     (if y \<in> seen then unseen seen ys else y # unseen (insert y seen) ys)"

definition first_occurrences :: "'a list \<Rightarrow> 'a list" where
  "first_occurrences ys = unseen {} ys"

fun assign_scores :: "'a set \<Rightarrow> 'a list \<Rightarrow> real list \<Rightarrow> real list" where
  "assign_scores seen [] scores = []"
| "assign_scores seen (y # ys) scores =
     (if y \<in> seen then 0 # assign_scores seen ys scores
      else (case scores of
              [] \<Rightarrow> []
            | v # rest \<Rightarrow> v # assign_scores (insert y seen) ys rest))"

text \<open>
  Candidate \<open>i\<close> ranks before candidate \<open>j\<close> under the scores \<open>vs\<close>: a higher score,
  or the same score and an earlier position.
\<close>

definition ranks_before :: "real list \<Rightarrow> nat \<Rightarrow> nat \<Rightarrow> bool" where
  "ranks_before vs i j \<longleftrightarrow> vs ! j < vs ! i \<or> (vs ! i = vs ! j \<and> i < j)"

section \<open>Properties\<close>

lemma call_gpt_Some:
  "fst (gpt prompt n stop (backend s)) = Some outs \<Longrightarrow>
   call_gpt gpt prompt n stop s =
     (Inr outs, s\<lparr>backend := snd (gpt prompt n stop (backend s)),
                  llm_calls := llm_calls s @ [(prompt, n, stop)]\<rparr>)"
  by (auto simp: call_gpt_def split: prod.splits)

lemmas demo_defs = demo_args_def demo_task_def demo_client_def demo_state_def

lemmas run_defs = solve_def solve_step_def generation_def evaluation_def selection_def
  select_candidates_def log_and_record_def get_samples_def get_proposals_def get_values_def
  get_value_def get_votes_def call_gpt_def Let_def

subsection \<open>Sampling generation\<close>

text \<open>
  Claim C6. A sampling generation call on candidate \<open>y\<close> with width \<open>w\<close> and a
  recognised template mode, whose one backend call returns \<open>w\<close> completions, returns
  exactly \<open>w\<close> candidates; each is \<open>y\<close> followed by one completion, so each has \<open>y\<close> as
  a prefix. Exactly one backend call is made.
\<close>

theorem get_samples_width:
  assumes mode: "pm = ''standard'' \<or> pm = ''cot''"
    and llm: "fst (gpt (if pm = ''standard'' then standard_prompt_wrap task x y
                        else cot_prompt_wrap task x y) w stop (backend s)) = Some samples"
    and width: "int (length samples) = w"
  shows "\<exists>cands s1. get_samples task gpt x y w pm stop s = (Inr cands, s1)
           \<and> int (length cands) = w
           \<and> (\<forall>c \<in> set cands. prefix y c)
           \<and> cands = map (\<lambda>c. y @ c) samples
           \<and> length (llm_calls s1) = Suc (length (llm_calls s))"
proof (cases "pm = ''standard''")
  case True
  with llm have "fst (gpt (standard_prompt_wrap task x y) w stop (backend s)) = Some samples"
    by simp
  then have "call_gpt gpt (standard_prompt_wrap task x y) w stop s =
     (Inr samples, s\<lparr>backend := snd (gpt (standard_prompt_wrap task x y) w stop (backend s)),
                  llm_calls := llm_calls s @ [(standard_prompt_wrap task x y, w, stop)]\<rparr>)"
    by (rule call_gpt_Some)
  with True width show ?thesis
    by (simp add: get_samples_def)
next
  case False
  with mode have c: "pm = ''cot''" by simp
  with llm have "fst (gpt (cot_prompt_wrap task x y) w stop (backend s)) = Some samples"
    by simp
  then have "call_gpt gpt (cot_prompt_wrap task x y) w stop s =
     (Inr samples, s\<lparr>backend := snd (gpt (cot_prompt_wrap task x y) w stop (backend s)),
                  llm_calls := llm_calls s @ [(cot_prompt_wrap task x y, w, stop)]\<rparr>)"
    by (rule call_gpt_Some)
  with c width show ?thesis
    by (simp add: get_samples_def)
qed

theorem get_samples_width_witness:
  "\<exists>cands s1. get_samples demo_task (demo_client ''gpt-4'' 0) ''in'' ''y'' 3 ''cot'' None
                 demo_state = (Inr cands, s1)
           \<and> int (length cands) = 3
           \<and> (\<forall>c \<in> set cands. prefix ''y'' c)
           \<and> cands = map (\<lambda>c. ''y'' @ c) [''a'', ''aa'', ''aaa'']
           \<and> length (llm_calls s1) = Suc (length (llm_calls demo_state))"
proof -
  have m: "''cot'' = ''standard'' \<or> ''cot'' = ''cot''" by simp
  have l: "fst (demo_client ''gpt-4'' 0
                 (if ''cot'' = ''standard'' then standard_prompt_wrap demo_task ''in'' ''y''
                  else cot_prompt_wrap demo_task ''in'' ''y'') 3 None (backend demo_state))
           = Some [''a'', ''aa'', ''aaa'']"
    by (simp add: demo_client_def upt_rec numeral_3_eq_3)
  have w: "int (length [''a'', ''aa'', ''aaa'']) = 3" by simp
  show ?thesis
    using get_samples_width [of "''cot''" "demo_client ''gpt-4'' 0" demo_task "''in''"
        "''y''" 3 None demo_state "[''a'', ''aa'', ''aaa'']", OF m l w] .
qed

subsection \<open>Proposal generation\<close>

text \<open>
  \<open>split_newline\<close> is \<open>str.split('\n')\<close>: the pieces hold no newline, joining them
  with newlines gives the string back, and there is one more piece than newlines.
\<close>

lemma split_newline_not_Nil: "split_newline cs \<noteq> []"
  by (induction cs) (auto split: list.splits)

lemma length_split_newline:
  "length (split_newline cs) = Suc (count_list cs (CHR 0x0A))"
  by (induction cs) (auto split: list.splits simp: split_newline_not_Nil)

lemma split_newline_pieces: "p \<in> set (split_newline cs) \<Longrightarrow> CHR 0x0A \<notin> set p"
  by (induction cs arbitrary: p) (auto split: list.splits if_splits)

lemma split_newline_join:
  "concat (map (\<lambda>p. p @ [CHR 0x0A]) (split_newline cs)) = cs @ [CHR 0x0A]"
  by (induction cs) (auto split: list.splits simp: split_newline_not_Nil)

text \<open>
  Claim C2, as amended. A proposal generation call on candidate \<open>y\<close> whose backend call
  returns at least one completion returns one candidate per line of the first
  completion, empty lines included: \<open>y\<close>, the line, a newline. Their number is the
  number of newlines plus one; it is the number of non-empty lines when no line is
  empty.
\<close>

theorem get_proposals_lines:
  assumes llm: "fst (gpt (propose_prompt_wrap task x y) 1 None (backend s)) = Some (out # others)"
  shows "\<exists>cands s1. get_proposals task gpt x y s = (Inr cands, s1)
           \<and> cands = map (\<lambda>p. y @ p @ [CHR 0x0A]) (split_newline out)
           \<and> length cands = Suc (count_list out (CHR 0x0A))
           \<and> ([] \<notin> set (split_newline out) \<longrightarrow> length cands = length (nonempty_lines out))"
proof -
  have "call_gpt gpt (propose_prompt_wrap task x y) 1 None s =
     (Inr (out # others), s\<lparr>backend := snd (gpt (propose_prompt_wrap task x y) 1 None (backend s)),
                  llm_calls := llm_calls s @ [(propose_prompt_wrap task x y, 1, None)]\<rparr>)"
    using llm by (rule call_gpt_Some)
  moreover have "[] \<notin> set (split_newline out) \<Longrightarrow> nonempty_lines out = split_newline out"
    unfolding nonempty_lines_def by (rule filter_True) auto
  ultimately show ?thesis
    by (auto simp: get_proposals_def length_split_newline)
qed

theorem get_proposals_lines_witness:
  "\<exists>cands s1. get_proposals demo_task (fixed_client [''a\<newline>b''] ''gpt-4'' 0) ''in'' ''y'' demo_state = (Inr cands, s1)
           \<and> cands = map (\<lambda>p. ''y'' @ p @ [CHR 0x0A]) (split_newline ''a\<newline>b'')
           \<and> length cands = Suc (count_list ''a\<newline>b'' (CHR 0x0A))
           \<and> ([] \<notin> set (split_newline ''a\<newline>b'') \<longrightarrow> length cands = length (nonempty_lines ''a\<newline>b''))
     \<and> [] \<notin> set (split_newline ''a\<newline>b'') \<and> length (nonempty_lines ''a\<newline>b'') = 2"
proof -
  have l: "fst (fixed_client [''a\<newline>b''] ''gpt-4'' 0 (propose_prompt_wrap demo_task ''in'' ''y'') 1 None (backend demo_state)) = Some (''a\<newline>b'' # [])"
    by (simp add: fixed_client_def)
  have "[] \<notin> set (split_newline ''a\<newline>b'') \<and> length (nonempty_lines ''a\<newline>b'') = 2"
    by (simp add: nonempty_lines_def)
  with get_proposals_lines [of "fixed_client [''a\<newline>b''] ''gpt-4'' 0" demo_task "''in''" "''y''" demo_state "''a\<newline>b''" "[]", OF l]
  show ?thesis by blast
qed

text \<open>
  Claim C2 as stated fails on a completion with an empty line: \<open>a\<close> followed by a
  newline has one non-empty line, and two candidates come back, the second made from
  the empty line after the newline.
\<close>

theorem get_proposals_empty_line_counterexample:
  "length (nonempty_lines ''a\<newline>'') = 1
   \<and> fst (get_proposals demo_task (fixed_client [''a\<newline>''] ''gpt-4'' 0) ''in'' ''y'' demo_state)
       = Inr [''ya\<newline>'', ''y\<newline>'']"
  by (simp add: nonempty_lines_def get_proposals_def call_gpt_def fixed_client_def demo_task_def demo_state_def)

subsection \<open>A search of zero steps\<close>

text \<open>
  Claim C10. When \<open>task.steps\<close> is 0, \<open>solve\<close> returns the initial frontier, the single
  empty candidate, with the empty list of step records, and leaves the state as it
  was: the log of backend calls does not grow, so no call is made.
\<close>

theorem solve_zero_steps:
  assumes "steps task = 0"
  shows "solve a task gpt_client idx to_print s = (Inr ([''''], [''steps'' \<mapsto> []]), s)"
  using assms by (simp add: solve_def)

theorem solve_zero_steps_witness:
  "steps (demo_task\<lparr>steps := 0\<rparr>) = 0 \<and>
   solve demo_args (demo_task\<lparr>steps := 0\<rparr>) demo_client 0 True demo_state
     = (Inr ([''''], [''steps'' \<mapsto> []]), demo_state)"
proof -
  have h: "steps (demo_task\<lparr>steps := 0\<rparr>) = 0" by simp
  from h solve_zero_steps [OF h, of demo_args demo_client 0 True demo_state] show ?thesis by simp
qed

subsection \<open>The value cache\<close>

text \<open>A hit returns the cached score and leaves the state alone, whatever was stored.\<close>

lemma get_value_hit:
  "value_cache s (value_prompt_wrap task x y) = Some v \<Longrightarrow>
   get_value task gpt x y n True s = (Inr v, s)"
  by (simp add: get_value_def)

lemma get_value_second_call:
  assumes "get_value task gpt x y n True s = (Inr v, s1)"
  shows "get_value task gpt x y n' True s1 = (Inr v, s1)"
proof -
  have "value_cache s1 (value_prompt_wrap task x y) = Some v"
    using assms
    by (auto simp: get_value_def Let_def call_gpt_def split: option.splits prod.splits sum.splits)
  then show ?thesis by (rule get_value_hit)
qed

text \<open>
  Claim C4. With caching on, the first evaluation of a pair whose rendered prompt is
  not yet in the cache makes one backend call (when the backend answers), stores the
  score under the rendered prompt and returns it; the second evaluation returns the
  same score and the same state: no further backend call and no change of the cache.
  So the two evaluations make exactly one scoring call.
\<close>

theorem get_value_cached_once:
  assumes miss: "value_cache s (value_prompt_wrap task x y) = None"
    and llm: "fst (gpt (value_prompt_wrap task x y) n None (backend s)) = Some outs"
  shows "\<exists>s1. get_value task gpt x y n True s = (Inr (value_outputs_unwrap task x y outs), s1)
           \<and> llm_calls s1 = llm_calls s @ [(value_prompt_wrap task x y, n, None)]
           \<and> value_cache s1 = (value_cache s)(value_prompt_wrap task x y \<mapsto> value_outputs_unwrap task x y outs)
           \<and> get_value task gpt x y n True s1 = (Inr (value_outputs_unwrap task x y outs), s1)"
proof -
  let ?p = "value_prompt_wrap task x y"
  let ?v = "value_outputs_unwrap task x y outs"
  let ?s0 = "s\<lparr>backend := snd (gpt ?p n None (backend s)), llm_calls := llm_calls s @ [(?p, n, None)]\<rparr>"
  let ?s1 = "?s0\<lparr>value_cache := (value_cache ?s0)(?p \<mapsto> ?v)\<rparr>"
  have "call_gpt gpt ?p n None s = (Inr outs, ?s0)"
    using llm by (rule call_gpt_Some)
  with miss have first: "get_value task gpt x y n True s = (Inr ?v, ?s1)"
    by (simp add: get_value_def Let_def)
  have "value_cache ?s1 ?p = Some ?v" by simp
  then have "get_value task gpt x y n True ?s1 = (Inr ?v, ?s1)" by (rule get_value_hit)
  with first show ?thesis by simp
qed

theorem get_value_cached_once_witness:
  "\<exists>s1. get_value demo_task (demo_client ''gpt-4'' 0) ''in'' ''ab'' 1 True demo_state
            = (Inr (value_outputs_unwrap demo_task ''in'' ''ab'' [''a'']), s1)
        \<and> llm_calls s1 = llm_calls demo_state @ [(value_prompt_wrap demo_task ''in'' ''ab'', 1, None)]
        \<and> value_cache s1 = (value_cache demo_state)
             (value_prompt_wrap demo_task ''in'' ''ab'' \<mapsto> value_outputs_unwrap demo_task ''in'' ''ab'' [''a''])
        \<and> get_value demo_task (demo_client ''gpt-4'' 0) ''in'' ''ab'' 1 True s1
            = (Inr (value_outputs_unwrap demo_task ''in'' ''ab'' [''a'']), s1)"
proof -
  have m: "value_cache demo_state (value_prompt_wrap demo_task ''in'' ''ab'') = None"
    by (simp add: demo_state_def)
  have l: "fst (demo_client ''gpt-4'' 0 (value_prompt_wrap demo_task ''in'' ''ab'') 1 None
             (backend demo_state)) = Some [''a'']"
    by (simp add: demo_client_def)
  show ?thesis
    using get_value_cached_once [of demo_state demo_task "''in''" "''ab''"
        "demo_client ''gpt-4'' 0" 1 "[''a'']", OF m l] .
qed

subsection \<open>Unrecognised strategy identifiers\<close>

text \<open>
  The template mode is dispatched with a final \<open>else\<close> that raises a ValueError naming
  the value, before the backend is called.
\<close>

lemma get_samples_unrecognized:
  "pm \<noteq> ''standard'' \<Longrightarrow> pm \<noteq> ''cot'' \<Longrightarrow>
   get_samples task gpt x y n pm stop s =
     (Inl (ValueError (''prompt_sample '' @ pm @ '' not recognized'')), s)"
  by (simp add: get_samples_def)

text \<open>
  Claim C1 asks the same of the three strategies dispatched in \<open>solve\<close>. Their
  \<open>if\<close>/\<open>elif\<close> chains have no \<open>else\<close>: an unrecognised \<open>method_select\<close> is found out
  only when \<open>select_ids\<close> is read unbound, after the generation call and the three
  scoring calls of the first step, and the error names the variable, not the value.
\<close>

theorem solve_unrecognized_select:
  "fst (solve (demo_args\<lparr>method_select := ''best''\<rparr>) demo_task demo_client 0 False demo_state)
     = Inl (NameError ''select_ids'')
   \<and> llm_calls (snd (solve (demo_args\<lparr>method_select := ''best''\<rparr>) demo_task demo_client 0
                       False demo_state))
     = [(''std:in:'', 3, None), (''value:in:a'', 1, None), (''value:in:aa'', 1, None),
        (''value:in:aaa'', 1, None)]"
  by (simp add: run_defs demo_defs upt_rec numeral_2_eq_2 numeral_3_eq_3)

text \<open>
  The same for \<open>method_evaluate\<close> (the generation call has been made) and for
  \<open>method_generate\<close> (no call yet, but the error is the unbound \<open>new_ys\<close>).
\<close>

theorem solve_unrecognized_evaluate:
  "fst (solve (demo_args\<lparr>method_evaluate := ''score''\<rparr>) demo_task demo_client 0 False demo_state)
     = Inl (NameError ''values'')
   \<and> llm_calls (snd (solve (demo_args\<lparr>method_evaluate := ''score''\<rparr>) demo_task demo_client 0
                       False demo_state))
     = [(''std:in:'', 3, None)]"
  by (simp add: run_defs demo_defs upt_rec numeral_2_eq_2 numeral_3_eq_3)

theorem solve_unrecognized_generate:
  "solve (demo_args\<lparr>method_generate := ''expand''\<rparr>) demo_task demo_client 0 False demo_state
     = (Inl (NameError ''new_ys''), demo_state)"
  by (simp add: run_defs demo_defs upt_rec numeral_2_eq_2 numeral_3_eq_3)

subsection \<open>The naive baseline\<close>

text \<open>
  \<open>get_samples\<close> does not look at the value cache: run on another cache it gives the
  same result and the same state, up to that cache.
\<close>

lemma get_samples_cache_frame:
  "get_samples task gpt x y n pm stop (s\<lparr>value_cache := c\<rparr>) =
     (fst (get_samples task gpt x y n pm stop s),
      (snd (get_samples task gpt x y n pm stop s))\<lparr>value_cache := c\<rparr>)"
  by (simp add: get_samples_def call_gpt_def split: prod.splits option.splits)

text \<open>
  Claim C9. With a recognised template mode and a backend that answers the one call
  with \<open>w = n_generate_sample\<close> completions, \<open>naive_solve\<close> returns these \<open>w\<close>
  completions (the empty candidate extended by each) with the empty dictionary as
  trace. The call is the sampling prompt of the empty candidate with no stop
  condition. The value cache is left as it was, and replacing it by any other cache
  changes neither the result nor the rest of the final state: it is not read.
\<close>

theorem naive_solve_width:
  assumes mode: "prompt_sample a = ''standard'' \<or> prompt_sample a = ''cot''"
    and llm: "fst (gpt_client (args_backend a) (temperature a)
                    (if prompt_sample a = ''standard''
                     then standard_prompt_wrap task (get_input task idx) []
                     else cot_prompt_wrap task (get_input task idx) [])
                    (n_generate_sample a) None (backend s)) = Some samples"
    and width: "int (length samples) = n_generate_sample a"
  shows "\<exists>s1. naive_solve a task gpt_client idx to_print s = (Inr (samples, Map.empty), s1)
           \<and> int (length samples) = n_generate_sample a
           \<and> llm_calls s1 = llm_calls s @
                [(if prompt_sample a = ''standard''
                  then standard_prompt_wrap task (get_input task idx) []
                  else cot_prompt_wrap task (get_input task idx) [],
                  n_generate_sample a, None)]
           \<and> value_cache s1 = value_cache s
           \<and> (\<forall>c. naive_solve a task gpt_client idx to_print (s\<lparr>value_cache := c\<rparr>)
                    = (Inr (samples, Map.empty), s1\<lparr>value_cache := c\<rparr>))"
proof -
  let ?gpt = "gpt_client (args_backend a) (temperature a)"
  let ?x = "get_input task idx"
  let ?p = "if prompt_sample a = ''standard'' then standard_prompt_wrap task ?x []
            else cot_prompt_wrap task ?x []"
  let ?s1 = "s\<lparr>backend := snd (?gpt ?p (n_generate_sample a) None (backend s)),
               llm_calls := llm_calls s @ [(?p, n_generate_sample a, None)]\<rparr>"
  have call: "call_gpt ?gpt ?p (n_generate_sample a) None s = (Inr samples, ?s1)"
    using llm by (rule call_gpt_Some)
  have gs: "get_samples task ?gpt ?x [] (n_generate_sample a) (prompt_sample a) None s
              = (Inr samples, ?s1)"
  proof -
    have "map ((@) []) samples = samples" by (induction samples) simp_all
    with mode call show ?thesis by (auto simp: get_samples_def)
  qed
  have run: "naive_solve a task gpt_client idx to_print s = (Inr (samples, Map.empty), ?s1)"
    using gs by (simp add: naive_solve_def Let_def)
  have frame: "naive_solve a task gpt_client idx to_print (s\<lparr>value_cache := c\<rparr>)
                 = (Inr (samples, Map.empty), ?s1\<lparr>value_cache := c\<rparr>)" for c
    using gs by (simp add: naive_solve_def get_samples_cache_frame Let_def)
  from run frame width show ?thesis by simp
qed

theorem naive_solve_width_witness:
  "\<exists>s1. naive_solve demo_args demo_task demo_client 0 True demo_state
            = (Inr ([''a'', ''aa'', ''aaa''], Map.empty), s1)
        \<and> int (length [''a'', ''aa'', ''aaa'']) = n_generate_sample demo_args
        \<and> llm_calls s1 = llm_calls demo_state @
                [(if prompt_sample demo_args = ''standard''
                  then standard_prompt_wrap demo_task (get_input demo_task 0) []
                  else cot_prompt_wrap demo_task (get_input demo_task 0) [],
                  n_generate_sample demo_args, None)]
        \<and> value_cache s1 = value_cache demo_state
        \<and> (\<forall>c. naive_solve demo_args demo_task demo_client 0 True (demo_state\<lparr>value_cache := c\<rparr>)
                    = (Inr ([''a'', ''aa'', ''aaa''], Map.empty), s1\<lparr>value_cache := c\<rparr>))"
proof -
  have m: "prompt_sample demo_args = ''standard'' \<or> prompt_sample demo_args = ''cot''"
    by (simp add: demo_args_def)
  have l: "fst (demo_client (args_backend demo_args) (temperature demo_args)
                    (if prompt_sample demo_args = ''standard''
                     then standard_prompt_wrap demo_task (get_input demo_task 0) []
                     else cot_prompt_wrap demo_task (get_input demo_task 0) [])
                    (n_generate_sample demo_args) None (backend demo_state))
             = Some [''a'', ''aa'', ''aaa'']"
    by (simp add: demo_client_def demo_args_def upt_rec numeral_3_eq_3)
  have w: "int (length [''a'', ''aa'', ''aaa'']) = n_generate_sample demo_args"
    by (simp add: demo_args_def)
  show ?thesis
    using naive_solve_width [of demo_args demo_client demo_task 0 demo_state
        "[''a'', ''aa'', ''aaa'']" True, OF m l w] .
qed

subsection \<open>Value evaluation of a candidate list\<close>

text \<open>
  The loop of \<open>get_values\<close> scores exactly the candidates not seen before, in order
  of first appearance, and fails where that scoring fails; the scores are then dealt
  out, with 0 for every repeated candidate.
\<close>

lemma comprehension_length:
  "comprehension f xs s = (Inr rs, s1) \<Longrightarrow> length rs = length xs"
  by (induction xs arbitrary: rs s) (auto split: prod.splits sum.splits)

lemma get_values_loop_unseen:
  "get_values_loop task gpt x n cv ys vals lvc s =
     (case comprehension (\<lambda>y. get_value task gpt x y n cv) (unseen (dom lvc) ys) s of
        (Inl e, s1) \<Rightarrow> (Inl e, s1)
      | (Inr scores, s1) \<Rightarrow> (Inr (vals @ assign_scores (dom lvc) ys scores), s1))"
proof (induction ys arbitrary: vals lvc s)
  case Nil
  then show ?case by simp
next
  case (Cons y ys)
  show ?case
  proof (cases "lvc y")
    case None
    then have nd: "y \<notin> dom lvc" by auto
    show ?thesis
    proof (cases "get_value task gpt x y n cv s")
      case (Pair r s1)
      show ?thesis
      proof (cases r)
        case (Inl e)
        with Pair None nd show ?thesis by simp
      next
        case (Inr v)
        have d: "dom (lvc(y \<mapsto> v)) = insert y (dom lvc)" by simp
        have ih: "get_values_loop task gpt x n cv ys (vals @ [v]) (lvc(y \<mapsto> v)) s1 =
          (case comprehension (\<lambda>y. get_value task gpt x y n cv)
                  (unseen (insert y (dom lvc)) ys) s1 of
             (Inl e, s2) \<Rightarrow> (Inl e, s2)
           | (Inr scores, s2) \<Rightarrow>
               (Inr ((vals @ [v]) @ assign_scores (insert y (dom lvc)) ys scores), s2))"
          using Cons.IH [of "vals @ [v]" "lvc(y \<mapsto> v)" s1] unfolding d .
        have lhs: "get_values_loop task gpt x n cv (y # ys) vals lvc s =
                   get_values_loop task gpt x n cv ys (vals @ [v]) (lvc(y \<mapsto> v)) s1"
          using Pair Inr None by simp
        have rhs: "unseen (dom lvc) (y # ys) = y # unseen (insert y (dom lvc)) ys"
          using nd by simp
        show ?thesis
          unfolding lhs ih rhs using Pair Inr nd
          by (simp split: prod.splits sum.splits)
      qed
    qed
  next
    case (Some v0)
    then have "y \<in> dom lvc" by auto
    with Some show ?thesis
      by (simp add: Cons.IH [of "vals @ [0]" lvc s] split: prod.splits sum.splits)
  qed
qed

lemma assign_scores_length:
  "length scores = length (unseen seen ys) \<Longrightarrow> length (assign_scores seen ys scores) = length ys"
  by (induction ys arbitrary: seen scores) (auto split: list.splits if_splits)

lemma unseen_set: "set (unseen seen ys) \<inter> seen = {}"
  by (induction ys arbitrary: seen) auto

lemma assign_scores_nth:
  "length scores = length (unseen seen ys) \<Longrightarrow> i < length ys \<Longrightarrow>
   (ys ! i \<in> seen \<union> set (take i ys) \<longrightarrow> assign_scores seen ys scores ! i = 0) \<and>
   (ys ! i \<notin> seen \<union> set (take i ys) \<longrightarrow>
      map_of (zip (unseen seen ys) scores) (ys ! i) = Some (assign_scores seen ys scores ! i))"
proof (induction ys arbitrary: seen scores i)
  case Nil
  then show ?case by simp
next
  case (Cons y ys)
  show ?case
  proof (cases "y \<in> seen")
    case True
    show ?thesis
    proof (cases i)
      case 0
      with True show ?thesis by simp
    next
      case (Suc j)
      with Cons.prems True have "length scores = length (unseen seen ys)" "j < length ys" by auto
      from Cons.IH [OF this] Suc True show ?thesis by auto
    qed
  next
    case False
    with Cons.prems obtain v rest where sc: "scores = v # rest"
      and len: "length rest = length (unseen (insert y seen) ys)"
      by (cases scores) auto
    show ?thesis
    proof (cases i)
      case 0
      with False sc show ?thesis by simp
    next
      case (Suc j)
      with Cons.prems have "j < length ys" by simp
      from Cons.IH [OF len this] Suc False sc show ?thesis by auto
    qed
  qed
qed

text \<open>
  Claim C3. When scoring each distinct candidate of \<open>ys\<close> once, in order of first
  appearance, gives \<open>scores\<close> and ends in state \<open>s1\<close>, then \<open>get_values\<close> on \<open>ys\<close>
  ends in that same state (a repeated candidate triggers no query) and returns one
  score per candidate, in order: 0 at every position whose candidate occurred
  earlier in the list, and at a first occurrence the score obtained for that candidate.
\<close>

theorem get_values_duplicates:
  assumes run: "comprehension (\<lambda>y. get_value task gpt x y n cv) (first_occurrences ys) s
                  = (Inr scores, s1)"
  shows "\<exists>vals. get_values task gpt x ys n cv s = (Inr vals, s1)
           \<and> length vals = length ys
           \<and> (\<forall>i<length ys.
                 (ys ! i \<in> set (take i ys) \<longrightarrow> vals ! i = 0) \<and>
                 (ys ! i \<notin> set (take i ys) \<longrightarrow>
                    map_of (zip (first_occurrences ys) scores) (ys ! i) = Some (vals ! i)))"
proof -
  let ?vals = "assign_scores {} ys scores"
  have len: "length scores = length (unseen {} ys)"
    using comprehension_length [OF run] by (simp add: first_occurrences_def)
  have "get_values task gpt x ys n cv s = (Inr ?vals, s1)"
    using run by (simp add: get_values_def get_values_loop_unseen first_occurrences_def)
  moreover have "length ?vals = length ys"
    using len by (rule assign_scores_length)
  moreover have "(ys ! i \<in> set (take i ys) \<longrightarrow> ?vals ! i = 0) \<and>
                 (ys ! i \<notin> set (take i ys) \<longrightarrow>
                    map_of (zip (first_occurrences ys) scores) (ys ! i) = Some (?vals ! i))"
    if "i < length ys" for i
    using assign_scores_nth [OF len that] by (simp add: first_occurrences_def)
  ultimately show ?thesis by blast
qed

text \<open>The example of the claim, \<open>ys = [A, A, B]\<close>, on the concrete task and in general.\<close>

lemma get_values_example:
  "fst (get_values demo_task (demo_client ''gpt-4'' 0) ''in'' [''a'', ''a'', ''bb''] 1 True demo_state)
     = Inr [1, 0, 2]
   \<and> llm_calls (snd (get_values demo_task (demo_client ''gpt-4'' 0) ''in'' [''a'', ''a'', ''bb''] 1
                       True demo_state))
     = [(''value:in:a'', 1, None), (''value:in:bb'', 1, None)]"
  by (simp add: run_defs demo_defs)

lemma get_values_A_A_B:
  assumes "A \<noteq> B"
    and "get_value task gpt x A n cv s = (Inr vA, s1)"
    and "get_value task gpt x B n cv s1 = (Inr vB, s2)"
  shows "get_values task gpt x [A, A, B] n cv s = (Inr [vA, 0, vB], s2)"
  using assms by (simp add: get_values_def)

theorem get_values_duplicates_witness:
  "\<exists>vals. get_values demo_task (demo_client ''gpt-4'' 0) ''in'' [''a'', ''a'', ''bb''] 1 True demo_state
            = (Inr vals, snd (comprehension (\<lambda>y. get_value demo_task (demo_client ''gpt-4'' 0) ''in'' y 1 True)
                               (first_occurrences [''a'', ''a'', ''bb'']) demo_state))
        \<and> length vals = length [''a'', ''a'', ''bb'']
        \<and> (\<forall>i<length [''a'', ''a'', ''bb''].
              ([''a'', ''a'', ''bb''] ! i \<in> set (take i [''a'', ''a'', ''bb'']) \<longrightarrow> vals ! i = 0) \<and>
              ([''a'', ''a'', ''bb''] ! i \<notin> set (take i [''a'', ''a'', ''bb'']) \<longrightarrow>
                 map_of (zip (first_occurrences [''a'', ''a'', ''bb'']) [1, 2])
                   ([''a'', ''a'', ''bb''] ! i) = Some (vals ! i)))"
proof -
  let ?c = "comprehension (\<lambda>y. get_value demo_task (demo_client ''gpt-4'' 0) ''in'' y 1 True)
              (first_occurrences [''a'', ''a'', ''bb'']) demo_state"
  have "fst ?c = Inr [1, 2]"
    by (simp add: first_occurrences_def run_defs demo_defs)
  then have h: "?c = (Inr [1, 2], snd ?c)"
    by (simp add: prod_eq_iff)
  show ?thesis
    using get_values_duplicates [OF h] .
qed

subsection \<open>Greedy selection\<close>

text \<open>
  \<open>sorted(..., reverse=True)\<close> permutes its argument, puts the keys in descending
  order and keeps elements of equal key in their original order.
\<close>

lemma sorted_reverse_set: "set (sorted_reverse key xs) = set xs"
  by (simp add: sorted_reverse_def)

lemma sorted_reverse_length: "length (sorted_reverse key xs) = length xs"
  by (simp add: sorted_reverse_def)

lemma sorted_reverse_distinct: "distinct (sorted_reverse key xs) = distinct xs"
  by (simp add: sorted_reverse_def)

lemma sorted_reverse_descending:
  "sorted_wrt (\<lambda>a b. key b \<le> key a) (sorted_reverse key xs)"
proof -
  have "sorted (map key (sort_key key (rev xs)))" by (rule sorted_sort_key)
  then have "sorted_wrt (\<lambda>a b. key a \<le> key b) (sort_key key (rev xs))"
    by (simp add: sorted_map)
  then show ?thesis
    by (simp add: sorted_reverse_def sorted_wrt_rev)
qed

lemma sorted_reverse_stable:
  "filter (\<lambda>y. key y = k) (sorted_reverse key xs) = filter (\<lambda>y. key y = k) xs"
  by (simp add: sorted_reverse_def rev_filter [symmetric] sort_key_stable)

lemma sorted_wrt_from_filter:
  "sorted_wrt R (filter Q xs) \<Longrightarrow> sorted_wrt (\<lambda>a b. Q a \<and> Q b \<longrightarrow> R a b) xs"
  by (induction xs) (auto split: if_splits)

lemma sorted_wrt_conj:
  "sorted_wrt P xs \<Longrightarrow> sorted_wrt Q xs \<Longrightarrow> sorted_wrt (\<lambda>a b. P a b \<and> Q a b) xs"
  by (induction xs) auto

lemma sorted_reverse_ties:
  assumes "sorted_wrt R xs"
  shows "sorted_wrt (\<lambda>a b. key a = key b \<longrightarrow> R a b) (sorted_reverse key xs)"
proof -
  let ?L = "sorted_reverse key xs"
  have "\<forall>i j. i < j \<longrightarrow> j < length ?L \<longrightarrow> (key (?L ! i) = key (?L ! j) \<longrightarrow> R (?L ! i) (?L ! j))"
  proof (intro allI impI)
    fix i j assume ij: "i < j" "j < length ?L" and eq: "key (?L ! i) = key (?L ! j)"
    let ?k = "key (?L ! i)"
    have "sorted_wrt R (filter (\<lambda>y. key y = ?k) xs)"
      using assms by (rule sorted_wrt_filter)
    then have "sorted_wrt R (filter (\<lambda>y. key y = ?k) ?L)"
      by (simp add: sorted_reverse_stable)
    then have "sorted_wrt (\<lambda>a b. key a = ?k \<and> key b = ?k \<longrightarrow> R a b) ?L"
      by (rule sorted_wrt_from_filter)
    with ij eq show "R (?L ! i) (?L ! j)"
      by (auto simp: sorted_wrt_iff_nth_less)
  qed
  then show ?thesis by (simp add: sorted_wrt_iff_nth_less)
qed

lemma sorted_reverse_ids:
  "sorted_wrt (ranks_before vs) (sorted_reverse (\<lambda>i. vs ! i) [0..<n])"
proof -
  let ?L = "sorted_reverse (\<lambda>i. vs ! i) [0..<n]"
  have "sorted_wrt (<) [0..<n]" by simp
  then have "sorted_wrt (\<lambda>a b. vs ! a = vs ! b \<longrightarrow> a < b) ?L"
    by (rule sorted_reverse_ties)
  with sorted_reverse_descending [of "\<lambda>i. vs ! i" "[0..<n]"]
  have "sorted_wrt (\<lambda>a b. vs ! b \<le> vs ! a \<and> (vs ! a = vs ! b \<longrightarrow> a < b)) ?L"
    by (rule sorted_wrt_conj)
  then show ?thesis
    by (rule sorted_wrt_mono_rel [rotated]) (auto simp: ranks_before_def)
qed

text \<open>
  Claim C5. For candidates \<open>new_ys\<close> with one score each and a count \<open>c \<ge> 0\<close>, greedy
  selection returns the candidates at \<open>min c (length new_ys)\<close> distinct indices. The
  indices are in ranking order (score descending, original order among equal scores),
  and every index left out ranks after every index selected: they are the \<open>c\<close>
  highest-scoring ones.
\<close>

theorem greedy_selection:
  assumes greedy: "method_select a = ''greedy''"
    and len: "length vs = length new_ys"
    and count: "0 \<le> n_select_sample a"
  shows "\<exists>ids. selection a new_ys (Some vs) ids0 s = (Inr ids, s)
           \<and> select_candidates new_ys ids = Inr (map (\<lambda>i. new_ys ! i) ids)
           \<and> length ids = min (nat (n_select_sample a)) (length new_ys)
           \<and> distinct ids
           \<and> set ids \<subseteq> {0..<length new_ys}
           \<and> sorted_wrt (ranks_before vs) ids
           \<and> (\<forall>i \<in> set ids. \<forall>j<length new_ys. j \<notin> set ids \<longrightarrow> ranks_before vs i j)"
proof -
  let ?n = "length new_ys"
  let ?c = "nat (n_select_sample a)"
  let ?L = "sorted_reverse (\<lambda>i. vs ! i) [0..<?n]"
  let ?ids = "take ?c ?L"
  have sel: "selection a new_ys (Some vs) ids0 s = (Inr ?ids, s)"
    using greedy len count by (simp add: selection_def slice_to_def)
  have sub: "set ?ids \<subseteq> {0..<?n}"
    using set_take_subset [of ?c ?L] by (simp add: sorted_reverse_set)
  then have cands: "select_candidates new_ys ?ids = Inr (map (\<lambda>i. new_ys ! i) ?ids)"
    by (auto simp: select_candidates_def)
  have lenids: "length ?ids = min ?c ?n"
    by (simp add: sorted_reverse_length)
  have dist: "distinct ?ids"
    by (rule distinct_take) (simp add: sorted_reverse_distinct)
  have srt: "sorted_wrt (ranks_before vs) (take ?c ?L @ drop ?c ?L)"
    using sorted_reverse_ids [of vs ?n] by simp
  then have s1: "sorted_wrt (ranks_before vs) ?ids"
    and cross: "\<forall>i \<in> set ?ids. \<forall>j \<in> set (drop ?c ?L). ranks_before vs i j"
    unfolding sorted_wrt_append by auto
  have rest: "ranks_before vs i j" if "i \<in> set ?ids" "j < ?n" "j \<notin> set ?ids" for i j
  proof -
    have "j \<in> set ?L" using that(2) by (simp add: sorted_reverse_set)
    then have "j \<in> set (take ?c ?L) \<union> set (drop ?c ?L)"
      by (simp only: set_append [symmetric] append_take_drop_id)
    with that(3) have "j \<in> set (drop ?c ?L)" by simp
    with cross that(1) show ?thesis by blast
  qed
  from sel cands lenids dist sub s1 rest show ?thesis by blast
qed

text \<open>The example of the claim: scores \<open>[3, 1, 3]\<close> and count 2 select indices \<open>[0, 2]\<close>.\<close>

lemma greedy_selection_example:
  "selection (demo_args\<lparr>n_select_sample := 2\<rparr>) [''p'', ''q'', ''r''] (Some [3, 1, 3]) None demo_state
     = (Inr [0, 2], demo_state)
   \<and> select_candidates [''p'', ''q'', ''r''] [0, 2] = Inr [''p'', ''r'']"
  by (simp add: selection_def select_candidates_def demo_args_def slice_to_def sorted_reverse_def
      upt_rec numeral_2_eq_2 numeral_3_eq_3)

theorem greedy_selection_witness:
  "\<exists>ids. selection (demo_args\<lparr>n_select_sample := 2\<rparr>) [''p'', ''q'', ''r''] (Some [3, 1, 3]) None
            demo_state = (Inr ids, demo_state)
        \<and> select_candidates [''p'', ''q'', ''r''] ids = Inr (map (\<lambda>i. [''p'', ''q'', ''r''] ! i) ids)
        \<and> length ids = min (nat (n_select_sample (demo_args\<lparr>n_select_sample := 2\<rparr>)))
                          (length [''p'', ''q'', ''r''])
        \<and> distinct ids
        \<and> set ids \<subseteq> {0..<length [''p'', ''q'', ''r'']}
        \<and> sorted_wrt (ranks_before [3, 1, 3]) ids
        \<and> (\<forall>i \<in> set ids. \<forall>j<length [''p'', ''q'', ''r''].
               j \<notin> set ids \<longrightarrow> ranks_before [3, 1, 3] i j)"
proof -
  have g: "method_select (demo_args\<lparr>n_select_sample := 2\<rparr>) = ''greedy''"
    by (simp add: demo_args_def)
  have l: "length [3, 1, 3 :: real] = length [''p'', ''q'', ''r'']" by simp
  have c: "0 \<le> n_select_sample (demo_args\<lparr>n_select_sample := 2\<rparr>)" by simp
  show ?thesis
    using greedy_selection [OF g l c, of None demo_state] .
qed

subsection \<open>The search loop and its trace\<close>






end
